theory Spec2Isabelle
  imports Complex_Main "HOL-Library.Multiset" "HOL-Library.Word"
begin

section \<open>The layout engine of generate.js\<close>

text \<open>
  The embedding follows \<^verbatim>\<open>src/generate.js\<close> function by function.

  \<^item> A JavaScript number is modelled as a real number: arithmetic is exact, the rounding
    of IEEE doubles is not part of the model.
  \<^item> A JavaScript string is the list of its UTF-16 code units, so that \<^verbatim>\<open>text.length\<close>
    is the length of the list (an emoji outside the basic plane counts twice, as it does
    in the program).
  \<^item> \<^verbatim>\<open>Math.random()\<close> reads an explicit random source \<open>rnd :: nat \<Rightarrow> real\<close>: the
    \<open>i\<close>-th call of a run returns \<open>rnd i\<close>, and the state counts the calls made so far.
    The contract of \<^verbatim>\<open>Math.random\<close>, a value in \<open>[0, 1)\<close>, is the predicate
    \<open>unit_interval\<close>; the theorems that need it assume it.
  \<^item> Arrays of strings live in a store and are passed by reference, as in the program:
    \<^verbatim>\<open>[...words]\<close> allocates a fresh array and \<^verbatim>\<open>sort\<close> writes to the array it is
    called on. The three arrays local to \<^verbatim>\<open>generateSVG\<close> are never shared and are
    plain lists.
\<close>

subsection \<open>Configuration (lines 6 to 11)\<close>

type_synonym js_string = "16 word list"

definition SVG_WIDTH :: real where "SVG_WIDTH = 1056"
definition SVG_HEIGHT :: real where "SVG_HEIGHT = 816"
definition FONT_SIZE :: real where "FONT_SIZE = 24"
definition PADDING :: real where "PADDING = FONT_SIZE / 4"
definition MAX_ATTEMPTS :: nat where "MAX_ATTEMPTS = 5000"

subsection \<open>Data\<close>

record boundingBox =
  width :: real
  height :: real

record rect = boundingBox +
  x :: real
  y :: real

record textElement =
  "text" :: js_string
  textX :: real
  textY :: real
  rotation :: real

text \<open>
  The fields \<open>textX\<close> and \<open>textY\<close> are the keys \<^verbatim>\<open>x\<close> and \<^verbatim>\<open>y\<close> of the objects
  pushed to \<^verbatim>\<open>textElements\<close>, named after the locals that initialise them.

  The state: the store of string arrays with its allocation pointer, and the number of
  \<^verbatim>\<open>Math.random()\<close> calls made. The fields \<open>samples\<close> and \<open>calls\<close> are counters
  added for the statements about effort: the candidate positions formed and the
  invocations of \<^verbatim>\<open>generateSVG\<close>. No definition reads them.
\<close>

record state =
  heap :: "nat \<Rightarrow> js_string list"
  next_ref :: nat
  draws :: nat
  samples :: nat
  calls :: nat

definition unit_interval :: "(nat \<Rightarrow> real) \<Rightarrow> bool" where
  "unit_interval rnd = (\<forall>i. 0 \<le> rnd i \<and> rnd i < 1)"

definition Math_random :: "(nat \<Rightarrow> real) \<Rightarrow> state \<Rightarrow> real \<times> state" where
  "Math_random rnd s = (rnd (draws s), s\<lparr>draws := Suc (draws s)\<rparr>)"

subsection \<open>estimateBoundingBox (lines 21 to 27)\<close>

definition estimateBoundingBox :: "js_string \<Rightarrow> real \<Rightarrow> boundingBox" where
  "estimateBoundingBox txt fontSize =
     \<lparr>width = real (length txt) * fontSize * 0.9 + PADDING * 2,
      height = fontSize * 1.2 + PADDING * 2\<rparr>"

subsection \<open>rectanglesOverlap (lines 30 to 37)\<close>

definition rectanglesOverlap :: "rect \<Rightarrow> rect \<Rightarrow> bool" where
  "rectanglesOverlap rect1 rect2 =
     (\<not> (x rect1 + width rect1 < x rect2 \<or>
         x rect2 + width rect2 < x rect1 \<or>
         y rect1 + height rect1 < y rect2 \<or>
         y rect2 + height rect2 < y rect1))"

subsection \<open>findNonOverlappingPosition (lines 40 to 68)\<close>

text \<open>
  The \<^verbatim>\<open>for\<close> loop, with its counter \<open>attempt\<close>. The canvas size arrives in the
  parameters \<open>cw\<close> and \<open>ch\<close> (\<^verbatim>\<open>width\<close> and \<^verbatim>\<open>height\<close> in the source).
\<close>

function findNonOverlappingPosition_loop ::
  "(nat \<Rightarrow> real) \<Rightarrow> boundingBox \<Rightarrow> rect list \<Rightarrow> real \<Rightarrow> real \<Rightarrow> nat \<Rightarrow> state
     \<Rightarrow> rect option \<times> state" where
  "findNonOverlappingPosition_loop rnd bb placedRectangles cw ch attempt s =
     (if attempt < MAX_ATTEMPTS then
        (let (r1, s1) = Math_random rnd s;
             (r2, s2) = Math_random rnd s1;
             newRect = \<lparr>width = width bb, height = height bb,
                        x = r1 * (cw - width bb), y = r2 * (ch - height bb)\<rparr>;
             overlaps = list_ex (\<lambda>rect. rectanglesOverlap newRect rect) placedRectangles;
             s3 = s2\<lparr>samples := Suc (samples s2)\<rparr>
         in if \<not> overlaps then (Some newRect, s3)
            else findNonOverlappingPosition_loop rnd bb placedRectangles cw ch (Suc attempt) s3)
      else (None, s))"
  by pat_completeness auto
termination
  by (relation "measure (\<lambda>(rnd, bb, placedRectangles, cw, ch, attempt, s). MAX_ATTEMPTS - attempt)")
     auto

declare findNonOverlappingPosition_loop.simps [simp del]

definition findNonOverlappingPosition ::
  "(nat \<Rightarrow> real) \<Rightarrow> boundingBox \<Rightarrow> rect list \<Rightarrow> real \<Rightarrow> real \<Rightarrow> state \<Rightarrow> rect option \<times> state" where
  "findNonOverlappingPosition rnd bb placedRectangles cw ch s =
     findNonOverlappingPosition_loop rnd bb placedRectangles cw ch 0 s"

subsection \<open>The shuffle (line 77)\<close>

text \<open>
  \<^verbatim>\<open>[...words]\<close> copies the array \<open>words\<close> refers to into a fresh array and returns
  its reference.
\<close>

definition spread :: "nat \<Rightarrow> state \<Rightarrow> nat \<times> state" where
  "spread words s =
     (next_ref s, s\<lparr>heap := (heap s)(next_ref s := heap s words), next_ref := Suc (next_ref s)\<rparr>)"

text \<open>The comparator \<^verbatim>\<open>() => Math.random() - 0.5\<close>: it ignores the elements it is given.\<close>

definition comparefn :: "(nat \<Rightarrow> real) \<Rightarrow> state \<Rightarrow> real \<times> state" where
  "comparefn rnd s = (let (r, s') = Math_random rnd s in (r - 0.5, s'))"

text \<open>
  \<^verbatim>\<open>Array.prototype.sort\<close> belongs to the JavaScript engine, not to the repository, and
  the language standard leaves the sequence of comparator calls to the implementation.
  It is modelled as an insertion sort: each element in turn is moved left past the
  elements of the sorted prefix for which the comparator returns a positive number.
  \<open>insert_sorted\<close> works on the reversed prefix, whose head is the element just left of
  the one being inserted.
\<close>

fun insert_sorted :: "(nat \<Rightarrow> real) \<Rightarrow> 'a \<Rightarrow> 'a list \<Rightarrow> state \<Rightarrow> 'a list \<times> state" where
  "insert_sorted rnd element [] s = ([element], s)"
| "insert_sorted rnd element (tmp # prefix) s =
     (let (order, s1) = comparefn rnd s
      in if order > 0 then
           (let (prefix', s2) = insert_sorted rnd element prefix s1 in (tmp # prefix', s2))
         else (element # tmp # prefix, s1))"

fun insertion_sort :: "(nat \<Rightarrow> real) \<Rightarrow> 'a list \<Rightarrow> 'a list \<Rightarrow> state \<Rightarrow> 'a list \<times> state" where
  "insertion_sort rnd [] prefix s = (rev prefix, s)"
| "insertion_sort rnd (element # rest) prefix s =
     (let (prefix', s1) = insert_sorted rnd element prefix s
      in insertion_sort rnd rest prefix' s1)"

text \<open>\<^verbatim>\<open>a.sort(comparefn)\<close> sorts the array at reference \<open>a\<close> in place and returns \<open>a\<close>.\<close>

definition Array_sort :: "(nat \<Rightarrow> real) \<Rightarrow> nat \<Rightarrow> state \<Rightarrow> nat \<times> state" where
  "Array_sort rnd a s =
     (let (sorted, s1) = insertion_sort rnd (heap s a) [] s
      in (a, s1\<lparr>heap := (heap s1)(a := sorted)\<rparr>))"

subsection \<open>generateSVG (lines 71 to 141)\<close>

record locals =
  placedRectangles :: "rect list"
  textElements :: "textElement list"
  unplacedWords :: "js_string list"

text \<open>The \<^verbatim>\<open>for (const word of shuffledWords)\<close> loop, lines 79 to 107.\<close>

fun placeWords :: "(nat \<Rightarrow> real) \<Rightarrow> js_string list \<Rightarrow> locals \<Rightarrow> state \<Rightarrow> locals \<times> state" where
  "placeWords rnd [] l s = (l, s)"
| "placeWords rnd (word # rest) l s =
     (let bb = estimateBoundingBox word FONT_SIZE;
          (position, s1) = findNonOverlappingPosition rnd bb (placedRectangles l) SVG_WIDTH SVG_HEIGHT s
      in case position of
           Some p \<Rightarrow>
             (let tx = x p + width p / 2;
                  ty = y p + height p / 2 + FONT_SIZE / 3;
                  (r, s2) = Math_random rnd s1;
                  rot = (r - 0.5) * 30
              in placeWords rnd rest
                   (l\<lparr>placedRectangles := placedRectangles l @ [p],
                      textElements := textElements l @
                        [\<lparr>text = word, textX = tx, textY = ty, rotation = rot\<rparr>]\<rparr>) s2)
         | None \<Rightarrow>
             placeWords rnd rest (l\<lparr>unplacedWords := unplacedWords l @ [word]\<rparr>) s1)"

text \<open>Line 77: \<^verbatim>\<open>const shuffledWords = [...words].sort(() => Math.random() - 0.5)\<close>.\<close>

definition shuffle :: "(nat \<Rightarrow> real) \<Rightarrow> nat \<Rightarrow> state \<Rightarrow> nat \<times> state" where
  "shuffle rnd words s = (let (copy, s1) = spread words s in Array_sort rnd copy s1)"

text \<open>
  Lines 72 to 107: the three empty arrays, the shuffled copy, the loop. The result is the
  final value of the three local arrays.
\<close>

definition generateSVG_layout :: "(nat \<Rightarrow> real) \<Rightarrow> nat \<Rightarrow> state \<Rightarrow> locals \<times> state" where
  "generateSVG_layout rnd words s =
     (let (shuffledWords, s1) = shuffle rnd words s
      in placeWords rnd (heap s1 shuffledWords)
           \<lparr>placedRectangles = [], textElements = [], unplacedWords = []\<rparr> s1)"

text \<open>
  The error thrown at line 111 carries the unplaced words (its message lists them). On
  success the function returns markup assembled from \<open>textElements\<close> alone (lines 118 to
  140); the model returns \<open>textElements\<close> in its place.
\<close>

datatype error = Failed_to_place "js_string list"

definition generateSVG ::
  "(nat \<Rightarrow> real) \<Rightarrow> nat \<Rightarrow> state \<Rightarrow> (error + textElement list) \<times> state" where
  "generateSVG rnd words s =
     (let (l, s1) = generateSVG_layout rnd words (s\<lparr>calls := Suc (calls s)\<rparr>)
      in if length (unplacedWords l) > 0 then (Inl (Failed_to_place (unplacedWords l)), s1)
         else (Inr (textElements l), s1))"

subsection \<open>main (lines 154 to 190)\<close>

definition maxRetries :: nat where "maxRetries = 10"

text \<open>
  The program ends in one of two ways: it writes \<^verbatim>\<open>svg\<close> to the output file (the
  variable is still undefined if the loop never assigned it), or it leaves through
  \<^verbatim>\<open>process.exit(1)\<close> after printing the message of the last error.
\<close>

datatype outcome = Saved "textElement list option" | Exit_1 error

function main_loop :: "(nat \<Rightarrow> real) \<Rightarrow> nat \<Rightarrow> nat \<Rightarrow> state \<Rightarrow> outcome \<times> state" where
  "main_loop rnd words attempts s =
     (if attempts < maxRetries then
        (case generateSVG rnd words s of
           (Inr svg, s1) \<Rightarrow> (Saved (Some svg), s1)
         | (Inl e, s1) \<Rightarrow>
             (if Suc attempts \<ge> maxRetries then (Exit_1 e, s1)
              else main_loop rnd words (Suc attempts) s1))
      else (Saved None, s))"
  by pat_completeness auto
termination
  by (relation "measure (\<lambda>(rnd, words, attempts, s). maxRetries - attempts)") auto

declare main_loop.simps [simp del]

text \<open>
  \<^verbatim>\<open>readWords\<close> is file input: it is represented by its result, the list of the
  non-blank lines of the file, stored in a fresh array.
\<close>

definition readWords :: "js_string list \<Rightarrow> state \<Rightarrow> nat \<times> state" where
  "readWords lines s =
     (next_ref s, s\<lparr>heap := (heap s)(next_ref s := lines), next_ref := Suc (next_ref s)\<rparr>)"

definition main :: "(nat \<Rightarrow> real) \<Rightarrow> js_string list \<Rightarrow> state \<Rightarrow> outcome \<times> state" where
  "main rnd lines s = (let (words, s1) = readWords lines s in main_loop rnd words 0 s1)"

subsection \<open>Auxiliary notions for the statements\<close>

text \<open>
  The candidate rectangle an attempt forms when the random source stands at draw \<open>d\<close>
  (lines 47 to 55), and the state after that attempt: two draws made, one candidate formed.
\<close>

definition candidate :: "(nat \<Rightarrow> real) \<Rightarrow> boundingBox \<Rightarrow> real \<Rightarrow> real \<Rightarrow> nat \<Rightarrow> rect" where
  "candidate rnd bb cw ch d =
     \<lparr>width = width bb, height = height bb,
      x = rnd d * (cw - width bb), y = rnd (Suc d) * (ch - height bb)\<rparr>"

definition sampled :: "state \<Rightarrow> state" where
  "sampled s = s\<lparr>draws := Suc (Suc (draws s)), samples := Suc (samples s)\<rparr>"

text \<open>
  How a text element relates to the rectangle pushed in the same turn of the loop: the
  rectangle is a candidate for the footprint of the element's text, and the anchor is its
  centre, lowered by a third of the font size.
\<close>

definition anchored :: "(nat \<Rightarrow> real) \<Rightarrow> textElement \<Rightarrow> rect \<Rightarrow> bool" where
  "anchored rnd e r =
     ((\<exists>d. r = candidate rnd (estimateBoundingBox (text e) FONT_SIZE) SVG_WIDTH SVG_HEIGHT d) \<and>
      textX e = x r + width r / 2 \<and>
      textY e = y r + height r / 2 + FONT_SIZE / 3 \<and>
      (\<exists>d. rotation e = (rnd d - 0.5) * 30))"

text \<open>
  The attempts of the retry loop: \<open>attempt_state rnd words s k\<close> is the state in which
  attempt number \<open>k\<close> (counted from 0) starts when the loop is entered in state \<open>s\<close> and
  the attempts before it threw, and \<open>attempt rnd words s k\<close> is what that attempt returns.
\<close>

fun attempt_state :: "(nat \<Rightarrow> real) \<Rightarrow> nat \<Rightarrow> state \<Rightarrow> nat \<Rightarrow> state" where
  "attempt_state rnd words s 0 = s"
| "attempt_state rnd words s (Suc k) = attempt_state rnd words (snd (generateSVG rnd words s)) k"

definition attempt ::
  "(nat \<Rightarrow> real) \<Rightarrow> nat \<Rightarrow> state \<Rightarrow> nat \<Rightarrow> (error + textElement list) \<times> state" where
  "attempt rnd words s k = generateSVG rnd words (attempt_state rnd words s k)"

text \<open>The same for the program: the attempts of \<open>main\<close> on the words read.\<close>

definition main_attempt_state :: "(nat \<Rightarrow> real) \<Rightarrow> js_string list \<Rightarrow> state \<Rightarrow> nat \<Rightarrow> state" where
  "main_attempt_state rnd lines s k =
     attempt_state rnd (fst (readWords lines s)) (snd (readWords lines s)) k"

definition main_attempt ::
  "(nat \<Rightarrow> real) \<Rightarrow> js_string list \<Rightarrow> state \<Rightarrow> nat \<Rightarrow> (error + textElement list) \<times> state" where
  "main_attempt rnd lines s k =
     attempt rnd (fst (readWords lines s)) (snd (readWords lines s)) k"

subsection \<open>Concrete inputs\<close>

text \<open>
  Random sources: three constant ones, and one that climbs in steps of a tenth and starts
  again below 1.
\<close>

definition rnd_zero :: "nat \<Rightarrow> real" where "rnd_zero i = 0"

definition rnd_half :: "nat \<Rightarrow> real" where "rnd_half i = 1 / 2"

definition rnd_nine :: "nat \<Rightarrow> real" where "rnd_nine i = 9 / 10"

fun rnd_ramp :: "nat \<Rightarrow> real" where
  "rnd_ramp 0 = 0"
| "rnd_ramp (Suc n) = (if rnd_ramp n + 1 / 10 < 1 then rnd_ramp n + 1 / 10 else 0)"

text \<open>
  The state at program start, and the state once \<open>readWords\<close> has stored the words, at
  reference 0.
\<close>

definition start :: state where
  "start = \<lparr>heap = (\<lambda>a. []), next_ref = 0, draws = 0, samples = 0, calls = 0\<rparr>"

definition loaded :: "js_string list \<Rightarrow> state" where
  "loaded ws = snd (readWords ws start)"

text \<open>
  Tokens: \<^verbatim>\<open>"abc"\<close> and \<^verbatim>\<open>"ab"\<close> as code units, and a token of 49 units, the shortest
  whose footprint is wider than the canvas.
\<close>

definition abc :: js_string where "abc = [97, 98, 99]"

definition ab :: js_string where "ab = [97, 98]"

definition long_token :: js_string where "long_token = replicate 49 97"

text \<open>The 10 by 10 square at a given \<open>x\<close>, and a footprint 2000 wide.\<close>

definition square :: "real \<Rightarrow> rect" where
  "square left = \<lparr>width = 10, height = 10, x = left, y = 0\<rparr>"

definition wide_box :: boundingBox where "wide_box = \<lparr>width = 2000, height = 10\<rparr>"

section \<open>Properties\<close>

subsection \<open>The overlap test\<close>

text \<open>
  C1 (as stated, refuted). The claim says that \<open>rectanglesOverlap\<close> returns false on
  \<open>{x:0,y:0,width:10,height:10}\<close> and \<open>{x:10,y:0,width:10,height:10}\<close>, whose edges touch, and
  true when the second rectangle starts at \<open>x = 9\<close>. The code returns true on the touching
  pair: \<open>0 + 10 < 10\<close> is false, as are the three other comparisons.
\<close>

theorem touching_squares_counterexample:
  "\<not> (rectanglesOverlap (square 0) (square 10) = False \<and>
      rectanglesOverlap (square 0) (square 9) = True)"
  by (simp add: rectanglesOverlap_def square_def)

text \<open>
  C1 (amended). Two rectangles whose edges exactly touch, with zero gap, are classified as
  overlapping: whenever the right edge of \<open>a\<close> is the left edge of \<open>b\<close>, the widths are not
  negative and the vertical extents are not strictly apart, \<open>rectanglesOverlap\<close> returns
  true. In particular it returns true on the pair of the claim that touches and on the pair
  one unit into each other; it returns false once there is a gap, as for \<open>x = 11\<close>.
\<close>

theorem touching_rectangles_overlap:
  "(x a + width a = x b \<and> 0 \<le> width a \<and> 0 \<le> width b \<and>
    \<not> y a + height a < y b \<and> \<not> y b + height b < y a \<longrightarrow> rectanglesOverlap a b) \<and>
   rectanglesOverlap (square 0) (square 10) = True \<and>
   rectanglesOverlap (square 0) (square 9) = True \<and>
   rectanglesOverlap (square 0) (square 11) = False"
  by (simp add: rectanglesOverlap_def square_def)

theorem touching_rectangles_overlap_witness:
  "x (square 0) + width (square 0) = x (square 10) \<and> 0 \<le> width (square 0) \<and>
   0 \<le> width (square 10) \<and> \<not> y (square 0) + height (square 0) < y (square 10) \<and>
   \<not> y (square 10) + height (square 10) < y (square 0) \<and>
   rectanglesOverlap (square 0) (square 10)"
  using touching_rectangles_overlap [of "square 0" "square 10"]
  by (simp add: square_def)

text \<open>
  C2. \<open>rectanglesOverlap a b\<close> is false exactly when \<open>a\<close> ends strictly left of \<open>b\<close>, or \<open>b\<close>
  strictly left of \<open>a\<close>, or \<open>a\<close> ends strictly above \<open>b\<close>, or \<open>b\<close> strictly above \<open>a\<close>.
\<close>

theorem rectanglesOverlap_false_iff:
  "(rectanglesOverlap a b = False) =
     (x a + width a < x b \<or> x b + width b < x a \<or>
      y a + height a < y b \<or> y b + height b < y a)"
  by (simp add: rectanglesOverlap_def)

theorem rectanglesOverlap_false_iff_witness:
  "rectanglesOverlap (square 0) (square 11) = False \<and>
   x (square 0) + width (square 0) < x (square 11)"
  using rectanglesOverlap_false_iff [of "square 0" "square 11"]
  by (simp add: square_def)

subsection \<open>The footprint estimator\<close>

text \<open>
  C4 (as stated, refuted). The claim takes the padding to be a quarter of the font size
  passed in. The code adds \<open>2 * PADDING\<close>, a constant computed once from \<open>FONT_SIZE = 24\<close>,
  whatever its parameter \<open>fontSize\<close> is: at font size 48 the width of a three-unit token is
  \<open>3 * 48 * 0.9 + 12 = 141.6\<close>, not \<open>3 * 48 * 0.9 + 24 = 153.6\<close>.
\<close>

theorem estimate_padding_counterexample:
  "estimateBoundingBox abc 48 \<noteq>
     \<lparr>width = real (length abc) * 48 * 0.9 + 2 * (48 / 4), height = 48 * 1.2 + 2 * (48 / 4)\<rparr>"
  by (simp add: estimateBoundingBox_def PADDING_def FONT_SIZE_def abc_def)

text \<open>
  C4 (amended). For every token \<open>t\<close> and font size \<open>f\<close> the estimator returns
  width \<open>length t * f * 0.9 + 2 * 6\<close> and height \<open>f * 1.2 + 2 * 6\<close>: the padding is the
  constant \<open>FONT_SIZE / 4 = 6\<close>. It is a quarter of \<open>f\<close> at \<open>f = FONT_SIZE\<close>, the one font
  size the program passes, and the estimate of a three-unit token at 24 is 76.8 by 40.8.
  The estimator is a total function of its two arguments and reads no state.
\<close>

theorem estimateBoundingBox_formula:
  "estimateBoundingBox t f =
     \<lparr>width = real (length t) * f * 0.9 + 2 * 6, height = f * 1.2 + 2 * 6\<rparr> \<and>
   estimateBoundingBox t FONT_SIZE =
     \<lparr>width = real (length t) * FONT_SIZE * 0.9 + 2 * (FONT_SIZE / 4),
      height = FONT_SIZE * 1.2 + 2 * (FONT_SIZE / 4)\<rparr> \<and>
   PADDING = 6 \<and>
   estimateBoundingBox abc 24 = \<lparr>width = 76.8, height = 40.8\<rparr>"
  by (simp add: estimateBoundingBox_def PADDING_def FONT_SIZE_def abc_def)

subsection \<open>The placement search\<close>

lemma sampled_fields [simp]:
  "heap (sampled s) = heap s"
  "next_ref (sampled s) = next_ref s"
  "calls (sampled s) = calls s"
  "samples (sampled s) = Suc (samples s)"
  "draws (sampled s) = Suc (Suc (draws s))"
  by (simp_all add: sampled_def)

lemma find_loop_stop:
  "\<not> a < MAX_ATTEMPTS \<Longrightarrow> findNonOverlappingPosition_loop rnd bb pl cw ch a s = (None, s)"
  by (subst findNonOverlappingPosition_loop.simps) simp

lemma find_loop_step:
  "a < MAX_ATTEMPTS \<Longrightarrow>
   findNonOverlappingPosition_loop rnd bb pl cw ch a s =
     (if list_ex (rectanglesOverlap (candidate rnd bb cw ch (draws s))) pl
      then findNonOverlappingPosition_loop rnd bb pl cw ch (Suc a) (sampled s)
      else (Some (candidate rnd bb cw ch (draws s)), sampled s))"
  by (subst findNonOverlappingPosition_loop.simps)
     (simp add: Math_random_def Let_def candidate_def sampled_def)

text \<open>What the search leaves alone, and how much it draws.\<close>

lemma find_loop_frame:
  "findNonOverlappingPosition_loop rnd bb pl cw ch a s = (res, s') \<Longrightarrow>
     heap s' = heap s \<and> next_ref s' = next_ref s \<and> calls s' = calls s \<and>
     samples s \<le> samples s' \<and> samples s' \<le> samples s + (MAX_ATTEMPTS - a) \<and>
     draws s' + 2 * samples s = draws s + 2 * samples s'"
proof (induction "MAX_ATTEMPTS - a" arbitrary: a s)
  case 0
  then show ?case by (simp add: find_loop_stop)
next
  case (Suc k)
  then have lt: "a < MAX_ATTEMPTS" by arith
  show ?case
  proof (cases "list_ex (rectanglesOverlap (candidate rnd bb cw ch (draws s))) pl")
    case False
    with Suc.prems lt show ?thesis by (auto simp: find_loop_step)
  next
    case True
    with Suc.prems lt
    have "findNonOverlappingPosition_loop rnd bb pl cw ch (Suc a) (sampled s) = (res, s')"
      by (simp add: find_loop_step)
    moreover have "k = MAX_ATTEMPTS - Suc a" using Suc.hyps(2) by arith
    ultimately have "heap s' = heap (sampled s) \<and> next_ref s' = next_ref (sampled s) \<and>
        calls s' = calls (sampled s) \<and> samples (sampled s) \<le> samples s' \<and>
        samples s' \<le> samples (sampled s) + (MAX_ATTEMPTS - Suc a) \<and>
        draws s' + 2 * samples (sampled s) = draws (sampled s) + 2 * samples s'"
      by (rule Suc.hyps(1)[rotated])
    with lt show ?thesis by simp arith
  qed
qed

text \<open>A rectangle the search returns is one of its candidates and overlaps no obstacle.\<close>

lemma find_loop_Some:
  "findNonOverlappingPosition_loop rnd bb pl cw ch a s = (Some r, s') \<Longrightarrow>
     \<exists>d. r = candidate rnd bb cw ch d \<and> \<not> list_ex (rectanglesOverlap r) pl"
proof (induction "MAX_ATTEMPTS - a" arbitrary: a s)
  case 0
  then show ?case by (simp add: find_loop_stop)
next
  case (Suc k)
  then have lt: "a < MAX_ATTEMPTS" by arith
  show ?case
  proof (cases "list_ex (rectanglesOverlap (candidate rnd bb cw ch (draws s))) pl")
    case False
    with Suc.prems lt show ?thesis by (auto simp: find_loop_step)
  next
    case True
    with Suc.prems lt
    have "findNonOverlappingPosition_loop rnd bb pl cw ch (Suc a) (sampled s) = (Some r, s')"
      by (simp add: find_loop_step)
    moreover have "k = MAX_ATTEMPTS - Suc a" using Suc.hyps(2) by arith
    ultimately show ?thesis by (rule Suc.hyps(1)[rotated])
  qed
qed

text \<open>The search gives up exactly when each of its candidates overlaps an obstacle.\<close>

lemma find_loop_None_iff:
  "(fst (findNonOverlappingPosition_loop rnd bb pl cw ch a s) = None) =
     (\<forall>k < MAX_ATTEMPTS - a.
        list_ex (rectanglesOverlap (candidate rnd bb cw ch (draws s + 2 * k))) pl)"
proof (induction "MAX_ATTEMPTS - a" arbitrary: a s)
  case 0
  then show ?case by (simp add: find_loop_stop)
next
  case (Suc k)
  then have lt: "a < MAX_ATTEMPTS" by arith
  have k: "k = MAX_ATTEMPTS - Suc a" using Suc.hyps(2) by arith
  have range: "(\<forall>i < MAX_ATTEMPTS - a. P i) = (P 0 \<and> (\<forall>i < MAX_ATTEMPTS - Suc a. P (Suc i)))"
    for P :: "nat \<Rightarrow> bool"
    using Suc.hyps(2) k by (metis All_less_Suc2)
  show ?case
    using lt Suc.hyps(1)[OF k, of "sampled s"]
    by (simp add: find_loop_step range)
qed

text \<open>If the first candidate is clear of the obstacles, the search returns it.\<close>

lemma find_first:
  "\<not> list_ex (rectanglesOverlap (candidate rnd bb cw ch (draws s))) pl \<Longrightarrow>
   findNonOverlappingPosition rnd bb pl cw ch s = (Some (candidate rnd bb cw ch (draws s)), sampled s)"
  by (simp add: findNonOverlappingPosition_def find_loop_step MAX_ATTEMPTS_def)

lemma candidate_oversized:
  assumes "unit_interval rnd" "cw < width bb"
  shows "x (candidate rnd bb cw ch d) \<le> 0 \<and>
         cw < x (candidate rnd bb cw ch d) + width (candidate rnd bb cw ch d)"
proof -
  have r: "0 \<le> rnd d" "rnd d < 1" using assms(1) by (simp_all add: unit_interval_def)
  have neg: "cw - width bb < 0" using assms(2) by simp
  have "rnd d * (cw - width bb) \<le> 0"
    using r(1) neg by (simp add: mult_nonneg_nonpos)
  moreover have "0 < (rnd d - 1) * (cw - width bb)"
    using r(2) neg by (simp add: mult_neg_neg)
  then have "cw < rnd d * (cw - width bb) + width bb"
    by (simp add: algebra_simps)
  ultimately show ?thesis by (simp add: candidate_def)
qed

text \<open>
  C3 (as stated, refuted). The claim says that a footprint wider than the canvas is never
  given a rectangle, and that the search returns null for it whatever the obstacles. The
  code has no size check: with no obstacle the first candidate is returned, here for a
  footprint 2000 wide on the canvas 1056 wide, at the negative coordinate
  \<open>0.5 * (1056 - 2000) = -472\<close>.
\<close>

theorem oversized_footprint_counterexample:
  "SVG_WIDTH < width wide_box \<and>
   fst (findNonOverlappingPosition rnd_half wide_box [] SVG_WIDTH SVG_HEIGHT start) =
     Some \<lparr>width = 2000, height = 10, x = - 472, y = 403\<rparr>"
  by (simp add: find_first candidate_def wide_box_def SVG_WIDTH_def SVG_HEIGHT_def
      rnd_half_def start_def)

text \<open>
  C3 (amended). \<open>findNonOverlappingPosition\<close> does not reject a footprint wider than the
  canvas. It samples as for any other footprint, from a range that is now negative: with an
  empty obstacle list it returns its first candidate, whose \<open>x\<close> is at most 0; for any
  obstacle list it returns null exactly when each of its \<open>MAX_ATTEMPTS\<close> candidates
  overlaps an obstacle; and every rectangle it returns has \<open>x \<le> 0\<close> and its right edge
  beyond the canvas width.
\<close>

theorem oversized_footprint_search:
  assumes "unit_interval rnd" and "cw < width bb"
  shows "findNonOverlappingPosition rnd bb [] cw ch s =
           (Some (candidate rnd bb cw ch (draws s)), sampled s) \<and>
         x (candidate rnd bb cw ch (draws s)) \<le> 0 \<and>
         ((fst (findNonOverlappingPosition rnd bb pl cw ch s) = None) =
            (\<forall>k < MAX_ATTEMPTS.
               list_ex (rectanglesOverlap (candidate rnd bb cw ch (draws s + 2 * k))) pl)) \<and>
         (\<forall>r. fst (findNonOverlappingPosition rnd bb pl cw ch s) = Some r \<longrightarrow>
               x r \<le> 0 \<and> cw < x r + width r)"
proof -
  have first: "findNonOverlappingPosition rnd bb [] cw ch s =
      (Some (candidate rnd bb cw ch (draws s)), sampled s)"
    by (simp add: find_first)
  have none: "(fst (findNonOverlappingPosition rnd bb pl cw ch s) = None) =
      (\<forall>k < MAX_ATTEMPTS.
         list_ex (rectanglesOverlap (candidate rnd bb cw ch (draws s + 2 * k))) pl)"
    by (simp add: findNonOverlappingPosition_def find_loop_None_iff)
  have some: "x r \<le> 0 \<and> cw < x r + width r"
    if "fst (findNonOverlappingPosition rnd bb pl cw ch s) = Some r" for r
  proof -
    have "findNonOverlappingPosition_loop rnd bb pl cw ch 0 s =
        (Some r, snd (findNonOverlappingPosition_loop rnd bb pl cw ch 0 s))"
      using that by (simp add: findNonOverlappingPosition_def prod_eq_iff)
    then obtain d where "r = candidate rnd bb cw ch d"
      using find_loop_Some by blast
    then show ?thesis using candidate_oversized [OF assms] by simp
  qed
  from first none some candidate_oversized [OF assms] show ?thesis by blast
qed

lemma unit_interval_half: "unit_interval rnd_half"
  by (simp add: unit_interval_def rnd_half_def)

theorem oversized_footprint_search_witness:
  "unit_interval rnd_half \<and> SVG_WIDTH < width wide_box \<and>
   findNonOverlappingPosition rnd_half wide_box [] SVG_WIDTH SVG_HEIGHT start =
     (Some \<lparr>width = 2000, height = 10, x = - 472, y = 403\<rparr>, sampled start)"
  using oversized_footprint_search [of rnd_half SVG_WIDTH wide_box SVG_HEIGHT start "[]"]
    unit_interval_half
  by (simp add: candidate_def wide_box_def SVG_WIDTH_def SVG_HEIGHT_def rnd_half_def start_def)

lemma findNonOverlappingPosition_frame:
  assumes "findNonOverlappingPosition rnd bb pl cw ch s = (res, s')"
  shows "heap s' = heap s \<and> next_ref s' = next_ref s \<and> calls s' = calls s \<and>
    samples s < samples s' \<and> samples s' \<le> samples s + MAX_ATTEMPTS \<and> draws s < draws s'"
proof -
  from assms have run: "findNonOverlappingPosition_loop rnd bb pl cw ch 0 s = (res, s')"
    by (simp add: findNonOverlappingPosition_def)
  have "0 < MAX_ATTEMPTS" by (simp add: MAX_ATTEMPTS_def)
  then have "samples s < samples s'"
    using run find_loop_frame [of rnd bb pl cw ch "Suc 0" "sampled s" res s']
    by (auto simp: find_loop_step split: if_splits)
  with find_loop_frame [OF run] show ?thesis by simp
qed

lemma findNonOverlappingPosition_Some:
  assumes "findNonOverlappingPosition rnd bb pl cw ch s = (Some r, s')"
  shows "\<exists>d. r = candidate rnd bb cw ch d" "\<forall>q \<in> set pl. \<not> rectanglesOverlap r q"
proof -
  from assms have run: "findNonOverlappingPosition_loop rnd bb pl cw ch 0 s = (Some r, s')"
    by (simp add: findNonOverlappingPosition_def)
  from find_loop_Some [OF run] show "\<exists>d. r = candidate rnd bb cw ch d"
    and "\<forall>q \<in> set pl. \<not> rectanglesOverlap r q"
    by (auto simp: list_ex_iff)
qed

subsection \<open>The loop over the shuffled words\<close>

text \<open>One turn of the loop, for a word that finds a position and for one that does not.\<close>

lemma placeWords_Some:
  assumes "findNonOverlappingPosition rnd (estimateBoundingBox w FONT_SIZE) (placedRectangles l)
             SVG_WIDTH SVG_HEIGHT s = (Some p, s1)"
  shows "placeWords rnd (w # rest) l s =
           placeWords rnd rest
             (l\<lparr>placedRectangles := placedRectangles l @ [p],
                textElements := textElements l @
                  [\<lparr>text = w, textX = x p + width p / 2,
                    textY = y p + height p / 2 + FONT_SIZE / 3,
                    rotation = (rnd (draws s1) - 0.5) * 30\<rparr>]\<rparr>)
             (s1\<lparr>draws := Suc (draws s1)\<rparr>)"
  using assms by (simp add: Let_def Math_random_def)

lemma placeWords_None:
  assumes "findNonOverlappingPosition rnd (estimateBoundingBox w FONT_SIZE) (placedRectangles l)
             SVG_WIDTH SVG_HEIGHT s = (None, s1)"
  shows "placeWords rnd (w # rest) l s =
           placeWords rnd rest (l\<lparr>unplacedWords := unplacedWords l @ [w]\<rparr>) s1"
  using assms by (simp add: Let_def)

declare placeWords.simps(2) [simp del]

text \<open>
  The invariant rule of the loop: a property of the words still to come, the local arrays
  and the state that holds at the start and that both turns keep, holds at the end.
\<close>

lemma placeWords_invariant:
  assumes run: "placeWords rnd ws l s = (l', s')"
    and init: "I ws l s"
    and placed: "\<And>w rest l s p s1. I (w # rest) l s \<Longrightarrow>
        findNonOverlappingPosition rnd (estimateBoundingBox w FONT_SIZE) (placedRectangles l)
          SVG_WIDTH SVG_HEIGHT s = (Some p, s1) \<Longrightarrow>
        I rest
          (l\<lparr>placedRectangles := placedRectangles l @ [p],
             textElements := textElements l @
               [\<lparr>text = w, textX = x p + width p / 2,
                 textY = y p + height p / 2 + FONT_SIZE / 3,
                 rotation = (rnd (draws s1) - 0.5) * 30\<rparr>]\<rparr>)
          (s1\<lparr>draws := Suc (draws s1)\<rparr>)"
    and unplaced: "\<And>w rest l s s1. I (w # rest) l s \<Longrightarrow>
        findNonOverlappingPosition rnd (estimateBoundingBox w FONT_SIZE) (placedRectangles l)
          SVG_WIDTH SVG_HEIGHT s = (None, s1) \<Longrightarrow>
        I rest (l\<lparr>unplacedWords := unplacedWords l @ [w]\<rparr>) s1"
  shows "I [] l' s'"
  using run init
proof (induction ws arbitrary: l s)
  case Nil
  then show ?case by simp
next
  case (Cons w rest)
  obtain res s1 where f: "findNonOverlappingPosition rnd (estimateBoundingBox w FONT_SIZE)
      (placedRectangles l) SVG_WIDTH SVG_HEIGHT s = (res, s1)"
    by (cases "findNonOverlappingPosition rnd (estimateBoundingBox w FONT_SIZE)
      (placedRectangles l) SVG_WIDTH SVG_HEIGHT s")
  show ?case
  proof (cases res)
    case None
    with f Cons.prems(1) have "placeWords rnd rest (l\<lparr>unplacedWords := unplacedWords l @ [w]\<rparr>) s1
        = (l', s')"
      by (simp add: placeWords_None)
    moreover have "I rest (l\<lparr>unplacedWords := unplacedWords l @ [w]\<rparr>) s1"
      using unplaced Cons.prems(2) f None by blast
    ultimately show ?thesis by (rule Cons.IH)
  next
    case (Some p)
    with f have f': "findNonOverlappingPosition rnd (estimateBoundingBox w FONT_SIZE)
      (placedRectangles l) SVG_WIDTH SVG_HEIGHT s = (Some p, s1)" by simp
    from Cons.prems(1) show ?thesis
      unfolding placeWords_Some [OF f']
      by (rule Cons.IH) (rule placed [OF Cons.prems(2) f'])
  qed
qed

text \<open>No two rectangles of an attempt overlap.\<close>

lemma rectanglesOverlap_sym: "rectanglesOverlap a b = rectanglesOverlap b a"
  by (auto simp: rectanglesOverlap_def)

lemma placeWords_clear:
  assumes "placeWords rnd ws l s = (l', s')"
    and "sorted_wrt (\<lambda>a b. \<not> rectanglesOverlap a b) (placedRectangles l)"
  shows "sorted_wrt (\<lambda>a b. \<not> rectanglesOverlap a b) (placedRectangles l')"
proof (rule placeWords_invariant
    [where I = "\<lambda>ws l s. sorted_wrt (\<lambda>a b. \<not> rectanglesOverlap a b) (placedRectangles l)",
      OF assms(1)])
  show "sorted_wrt (\<lambda>a b. \<not> rectanglesOverlap a b) (placedRectangles l)" by (rule assms(2))
next
  fix w rest l s p s1
  assume inv: "sorted_wrt (\<lambda>a b. \<not> rectanglesOverlap a b) (placedRectangles l)"
    and f: "findNonOverlappingPosition rnd (estimateBoundingBox w FONT_SIZE) (placedRectangles l)
          SVG_WIDTH SVG_HEIGHT s = (Some p, s1)"
  from findNonOverlappingPosition_Some(2) [OF f] inv
  show "sorted_wrt (\<lambda>a b. \<not> rectanglesOverlap a b)
     (placedRectangles (l\<lparr>placedRectangles := placedRectangles l @ [p],
             textElements := textElements l @
               [\<lparr>text = w, textX = x p + width p / 2,
                 textY = y p + height p / 2 + FONT_SIZE / 3,
                 rotation = (rnd (draws s1) - 0.5) * 30\<rparr>]\<rparr>))"
    by (simp add: sorted_wrt_append rectanglesOverlap_sym)
next
  fix w rest l s s1
  assume "sorted_wrt (\<lambda>a b. \<not> rectanglesOverlap a b) (placedRectangles l)"
  then show "sorted_wrt (\<lambda>a b. \<not> rectanglesOverlap a b)
     (placedRectangles (l\<lparr>unplacedWords := unplacedWords l @ [w]\<rparr>))"
    by simp
qed

text \<open>Each text element is anchored at the rectangle pushed with it.\<close>

lemma placeWords_anchored:
  assumes "placeWords rnd ws l s = (l', s')"
    and "list_all2 (anchored rnd) (textElements l) (placedRectangles l)"
  shows "list_all2 (anchored rnd) (textElements l') (placedRectangles l')"
  by (rule placeWords_invariant
      [where I = "\<lambda>ws l s. list_all2 (anchored rnd) (textElements l) (placedRectangles l)",
        OF assms])
    (auto simp: anchored_def intro!: list_all2_appendI dest: findNonOverlappingPosition_Some(1))

text \<open>Every word of the loop ends in exactly one of \<open>textElements\<close> and \<open>unplacedWords\<close>.\<close>

lemma placeWords_mset:
  assumes "placeWords rnd ws l s = (l', s')"
  shows "mset (map text (textElements l')) + mset (unplacedWords l') =
         mset (map text (textElements l)) + mset (unplacedWords l) + mset ws"
proof -
  have "mset (map text (textElements l')) + mset (unplacedWords l') + mset ([]::js_string list) =
         mset (map text (textElements l)) + mset (unplacedWords l) + mset ws"
    by (rule placeWords_invariant
      [where I = "\<lambda>ws' l' s'. mset (map text (textElements l')) + mset (unplacedWords l') + mset ws' =
         mset (map text (textElements l)) + mset (unplacedWords l) + mset ws",
        OF assms]) auto
  then show ?thesis by simp
qed

text \<open>The loop leaves the store alone and forms at most \<open>MAX_ATTEMPTS\<close> candidates a word.\<close>

lemma placeWords_frame:
  assumes "placeWords rnd ws l s = (l', s')"
  shows "heap s' = heap s \<and> next_ref s' = next_ref s \<and> calls s' = calls s \<and>
    samples s \<le> samples s' \<and> samples s' \<le> samples s + length ws * MAX_ATTEMPTS \<and>
    draws s \<le> draws s' \<and> (ws \<noteq> [] \<longrightarrow> draws s < draws s')"
proof -
  have "heap s' = heap s \<and> next_ref s' = next_ref s \<and> calls s' = calls s \<and>
    samples s \<le> samples s' \<and>
    samples s' + length ([]::js_string list) * MAX_ATTEMPTS \<le> samples s + length ws * MAX_ATTEMPTS \<and>
    draws s \<le> draws s' \<and> (length ([]::js_string list) < length ws \<longrightarrow> draws s < draws s')"
    by (rule placeWords_invariant
      [where I = "\<lambda>ws' l' t. heap t = heap s \<and> next_ref t = next_ref s \<and> calls t = calls s \<and>
        samples s \<le> samples t \<and>
        samples t + length ws' * MAX_ATTEMPTS \<le> samples s + length ws * MAX_ATTEMPTS \<and>
        draws s \<le> draws t \<and> (length ws' < length ws \<longrightarrow> draws s < draws t)",
        OF assms])
      (auto dest!: findNonOverlappingPosition_frame)
  then show ?thesis by simp
qed

subsection \<open>The shuffle\<close>

lemma comparefn_frame:
  "comparefn rnd s = (v, s') \<Longrightarrow>
     heap s' = heap s \<and> next_ref s' = next_ref s \<and> calls s' = calls s \<and>
     samples s' = samples s \<and> draws s' = Suc (draws s)"
  by (auto simp: comparefn_def Math_random_def)

text \<open>
  Whatever the comparator answers, inserting moves elements and neither drops nor
  duplicates one; the only effect on the state is the draws made.
\<close>

lemma insert_sorted_spec:
  "insert_sorted rnd e p s = (p', s') \<Longrightarrow>
     mset p' = add_mset e (mset p) \<and>
     heap s' = heap s \<and> next_ref s' = next_ref s \<and> calls s' = calls s \<and>
     samples s' = samples s \<and> draws s \<le> draws s'"
proof (induction p arbitrary: s p' s')
  case Nil
  then show ?case by auto
next
  case (Cons tmp prefix)
  obtain order s1 where c: "comparefn rnd s = (order, s1)"
    by (cases "comparefn rnd s")
  note fr = comparefn_frame [OF c]
  show ?case
  proof (cases "order > 0")
    case False
    with Cons.prems c fr show ?thesis by auto
  next
    case True
    obtain q s2 where i: "insert_sorted rnd e prefix s1 = (q, s2)"
      by (cases "insert_sorted rnd e prefix s1")
    from Cons.IH [OF i] Cons.prems c True i fr show ?thesis by auto
  qed
qed

lemma insertion_sort_spec:
  "insertion_sort rnd xs p s = (ys, s') \<Longrightarrow>
     mset ys = mset xs + mset p \<and>
     heap s' = heap s \<and> next_ref s' = next_ref s \<and> calls s' = calls s \<and>
     samples s' = samples s \<and> draws s \<le> draws s'"
proof (induction xs arbitrary: p s)
  case Nil
  then show ?case by auto
next
  case (Cons e rest)
  obtain q s1 where i: "insert_sorted rnd e p s = (q, s1)"
    by (cases "insert_sorted rnd e p s")
  with Cons.prems have "insertion_sort rnd rest q s1 = (ys, s')" by simp
  from Cons.IH [OF this] insert_sorted_spec [OF i] show ?case by auto
qed

text \<open>
  The shuffle writes one array, the fresh copy: it holds a permutation of the words, and
  every other array of the store is as it was.
\<close>

lemma shuffle_spec:
  assumes "shuffle rnd words s = (sw, s1)"
  shows "sw = next_ref s \<and> next_ref s1 = Suc (next_ref s) \<and>
    mset (heap s1 sw) = mset (heap s words) \<and>
    (\<forall>a. a \<noteq> next_ref s \<longrightarrow> heap s1 a = heap s a) \<and>
    calls s1 = calls s \<and> samples s1 = samples s \<and> draws s \<le> draws s1"
proof -
  define s0 where "s0 = s\<lparr>heap := (heap s)(next_ref s := heap s words), next_ref := Suc (next_ref s)\<rparr>"
  obtain ys t where srt: "insertion_sort rnd (heap s0 (next_ref s)) [] s0 = (ys, t)"
    by (cases "insertion_sort rnd (heap s0 (next_ref s)) [] s0")
  from assms srt have res: "sw = next_ref s" "s1 = t\<lparr>heap := (heap t)(next_ref s := ys)\<rparr>"
    by (auto simp: shuffle_def spread_def Array_sort_def s0_def [symmetric])
  from insertion_sort_spec [OF srt] res show ?thesis
    by (simp add: s0_def)
qed

subsection \<open>One attempt\<close>

lemma generateSVG_layout_run:
  assumes "generateSVG_layout rnd words s = (l, s')"
  obtains s1 where "shuffle rnd words s = (next_ref s, s1)"
    and "placeWords rnd (heap s1 (next_ref s))
           \<lparr>placedRectangles = [], textElements = [], unplacedWords = []\<rparr> s1 = (l, s')"
proof -
  obtain sw s1 where sh: "shuffle rnd words s = (sw, s1)"
    by (cases "shuffle rnd words s")
  with shuffle_spec [OF sh] assms that show thesis
    by (simp add: generateSVG_layout_def)
qed

lemma generateSVG_layout_frame:
  assumes "generateSVG_layout rnd words s = (l, s')"
  shows "(\<forall>a. a \<noteq> next_ref s \<longrightarrow> heap s' a = heap s a) \<and>
    mset (heap s' (next_ref s)) = mset (heap s words) \<and>
    next_ref s' = Suc (next_ref s) \<and> calls s' = calls s \<and>
    samples s \<le> samples s' \<and> samples s' \<le> samples s + length (heap s words) * MAX_ATTEMPTS \<and>
    draws s \<le> draws s' \<and> (heap s words \<noteq> [] \<longrightarrow> draws s < draws s')"
proof -
  from assms obtain s1 where sh: "shuffle rnd words s = (next_ref s, s1)"
    and pw: "placeWords rnd (heap s1 (next_ref s))
           \<lparr>placedRectangles = [], textElements = [], unplacedWords = []\<rparr> s1 = (l, s')"
    by (rule generateSVG_layout_run)
  note a = shuffle_spec [OF sh] and b = placeWords_frame [OF pw]
  from a have len: "length (heap s1 (next_ref s)) = length (heap s words)"
    by (metis mset_eq_length)
  then have ne: "heap s words \<noteq> [] \<Longrightarrow> heap s1 (next_ref s) \<noteq> []" by auto
  from a b len ne show ?thesis by auto
qed

lemma generateSVG_layout_locals:
  assumes "generateSVG_layout rnd words s = (l, s')"
  shows "sorted_wrt (\<lambda>a b. \<not> rectanglesOverlap a b) (placedRectangles l)"
    and "list_all2 (anchored rnd) (textElements l) (placedRectangles l)"
    and "mset (map text (textElements l)) + mset (unplacedWords l) = mset (heap s words)"
proof -
  from assms obtain s1 where sh: "shuffle rnd words s = (next_ref s, s1)"
    and pw: "placeWords rnd (heap s1 (next_ref s))
           \<lparr>placedRectangles = [], textElements = [], unplacedWords = []\<rparr> s1 = (l, s')"
    by (rule generateSVG_layout_run)
  show "sorted_wrt (\<lambda>a b. \<not> rectanglesOverlap a b) (placedRectangles l)"
    using placeWords_clear [OF pw] by simp
  show "list_all2 (anchored rnd) (textElements l) (placedRectangles l)"
    using placeWords_anchored [OF pw] by simp
  show "mset (map text (textElements l)) + mset (unplacedWords l) = mset (heap s words)"
    using placeWords_mset [OF pw] shuffle_spec [OF sh] by simp
qed

lemma generateSVG_run:
  assumes "generateSVG rnd words s = (res, s')"
  obtains l where "generateSVG_layout rnd words (s\<lparr>calls := Suc (calls s)\<rparr>) = (l, s')"
    and "res = (if unplacedWords l = [] then Inr (textElements l)
                else Inl (Failed_to_place (unplacedWords l)))"
proof -
  obtain l t where "generateSVG_layout rnd words (s\<lparr>calls := Suc (calls s)\<rparr>) = (l, t)"
    by (cases "generateSVG_layout rnd words (s\<lparr>calls := Suc (calls s)\<rparr>)")
  with assms that show thesis
    by (auto simp: generateSVG_def split: if_splits)
qed

lemma generateSVG_frame:
  assumes "generateSVG rnd words s = (res, s')"
  shows "(\<forall>a. a \<noteq> next_ref s \<longrightarrow> heap s' a = heap s a) \<and>
    mset (heap s' (next_ref s)) = mset (heap s words) \<and>
    next_ref s' = Suc (next_ref s) \<and> calls s' = Suc (calls s) \<and>
    samples s \<le> samples s' \<and> samples s' \<le> samples s + length (heap s words) * MAX_ATTEMPTS \<and>
    draws s \<le> draws s' \<and> (heap s words \<noteq> [] \<longrightarrow> draws s < draws s')"
proof -
  from assms obtain l where "generateSVG_layout rnd words (s\<lparr>calls := Suc (calls s)\<rparr>) = (l, s')"
    by (rule generateSVG_run)
  from generateSVG_layout_frame [OF this] show ?thesis by simp
qed

subsection \<open>Layout claims\<close>

text \<open>The equations that evaluate an attempt on a concrete input.\<close>

lemmas run_defs =
  generateSVG_def generateSVG_layout_def shuffle_def spread_def Array_sort_def comparefn_def
  Math_random_def loaded_def readWords_def start_def Let_def placeWords_Some placeWords_None
  find_first candidate_def estimateBoundingBox_def PADDING_def FONT_SIZE_def SVG_WIDTH_def
  SVG_HEIGHT_def rectanglesOverlap_def sampled_def

lemma two_words_layout:
  "fst (generateSVG_layout rnd_ramp 0 (loaded [abc, abc])) =
     \<lparr>placedRectangles =
        [\<lparr>width = 76.8, height = 40.8, x = 97.92, y = 155.04\<rparr>,
         \<lparr>width = 76.8, height = 40.8, x = 391.68, y = 387.6\<rparr>],
      textElements =
        [\<lparr>text = abc, textX = 136.32, textY = 183.44, rotation = - 6\<rparr>,
         \<lparr>text = abc, textX = 430.08, textY = 416, rotation = 3\<rparr>],
      unplacedWords = []\<rparr>"
  by (simp add: run_defs abc_def)

text \<open>
  C5. In every layout attempt, so in every successful one, the rectangles of any two
  distinct placements do not overlap: \<open>rectanglesOverlap\<close> returns false on the pair, in
  either order.
\<close>

theorem placements_do_not_overlap:
  assumes "generateSVG_layout rnd words s = (l, s')"
    and "i < length (placedRectangles l)" and "j < length (placedRectangles l)" and "i \<noteq> j"
  shows "\<not> rectanglesOverlap (placedRectangles l ! i) (placedRectangles l ! j)"
proof -
  have clear: "sorted_wrt (\<lambda>a b. \<not> rectanglesOverlap a b) (placedRectangles l)"
    using assms(1) by (rule generateSVG_layout_locals(1))
  consider "i < j" | "j < i" using assms(4) by arith
  then show ?thesis
  proof cases
    case 1
    with clear assms(3) show ?thesis by (simp add: sorted_wrt_iff_nth_less)
  next
    case 2
    with clear assms(2) have "\<not> rectanglesOverlap (placedRectangles l ! j) (placedRectangles l ! i)"
      by (simp add: sorted_wrt_iff_nth_less)
    then show ?thesis by (simp add: rectanglesOverlap_sym)
  qed
qed

theorem placements_do_not_overlap_witness:
  "0 < length (placedRectangles (fst (generateSVG_layout rnd_ramp 0 (loaded [abc, abc])))) \<and>
   1 < length (placedRectangles (fst (generateSVG_layout rnd_ramp 0 (loaded [abc, abc])))) \<and>
   \<not> rectanglesOverlap
       (placedRectangles (fst (generateSVG_layout rnd_ramp 0 (loaded [abc, abc]))) ! 0)
       (placedRectangles (fst (generateSVG_layout rnd_ramp 0 (loaded [abc, abc]))) ! 1)"
  using placements_do_not_overlap [OF prod.collapse [symmetric],
      of 0 rnd_ramp 0 "loaded [abc, abc]" 1]
  by (simp add: two_words_layout)

lemma abc_length: "length abc = 3"
  by (simp add: abc_def)

lemma unit_interval_ramp: "unit_interval rnd_ramp"
proof -
  have "0 \<le> rnd_ramp i \<and> rnd_ramp i < 1" for i
    by (induction i) auto
  then show ?thesis by (simp add: unit_interval_def)
qed

lemma candidate_in_canvas:
  assumes "unit_interval rnd" and "width bb \<le> cw" and "height bb \<le> ch"
  shows "0 \<le> x (candidate rnd bb cw ch d) \<and>
         x (candidate rnd bb cw ch d) + width (candidate rnd bb cw ch d) \<le> cw \<and>
         0 \<le> y (candidate rnd bb cw ch d) \<and>
         y (candidate rnd bb cw ch d) + height (candidate rnd bb cw ch d) \<le> ch"
proof -
  have r: "0 \<le> rnd i" "rnd i \<le> 1" for i
    using assms(1) by (simp_all add: unit_interval_def less_imp_le)
  have scale: "0 \<le> rnd i * c \<and> rnd i * c + b \<le> c + b" if "0 \<le> c" for i b c
    using r [of i] that by (simp add: mult_left_le_one_le)
  from scale [of "cw - width bb" d "width bb"] scale [of "ch - height bb" "Suc d" "height bb"] assms(2,3)
  show ?thesis by (simp add: candidate_def)
qed

text \<open>
  C6 (as stated, refuted). The claim bounds every placed rectangle by the canvas, for
  every token list. A token of 49 code units has a footprint \<open>49 * 21.6 + 12 = 1070.4\<close>
  wide, more than the canvas width 1056; the code places it, at \<open>x = 0.5 * (1056 - 1070.4)
  = -7.2\<close>, and its right edge is at 1063.2.
\<close>

theorem long_token_counterexample:
  "placedRectangles (fst (generateSVG_layout rnd_half 0 (loaded [long_token]))) =
     [\<lparr>width = 1070.4, height = 40.8, x = - 7.2, y = 387.6\<rparr>] \<and>
   unplacedWords (fst (generateSVG_layout rnd_half 0 (loaded [long_token]))) = [] \<and>
   \<not> (0 \<le> (- 7.2 :: real)) \<and> \<not> (- 7.2 + 1070.4 \<le> SVG_WIDTH)"
  by (simp add: run_defs long_token_def rnd_half_def)

text \<open>
  C6 (amended). For every placement whose token has at most 48 code units, so that its
  footprint is no wider than the canvas, the rectangle lies within the canvas:
  \<open>0 \<le> x\<close>, \<open>x + width \<le> SVG_WIDTH\<close>, \<open>0 \<le> y\<close> and \<open>y + height \<le> SVG_HEIGHT\<close>, for every
  token list and every random source with values in \<open>[0, 1)\<close>.
\<close>

theorem short_tokens_within_canvas:
  assumes "unit_interval rnd" and "generateSVG_layout rnd words s = (l, s')"
    and "i < length (placedRectangles l)"
    and "length (text (textElements l ! i)) \<le> 48"
  shows "0 \<le> x (placedRectangles l ! i) \<and>
         x (placedRectangles l ! i) + width (placedRectangles l ! i) \<le> SVG_WIDTH \<and>
         0 \<le> y (placedRectangles l ! i) \<and>
         y (placedRectangles l ! i) + height (placedRectangles l ! i) \<le> SVG_HEIGHT"
proof -
  define e where "e = textElements l ! i"
  have "list_all2 (anchored rnd) (textElements l) (placedRectangles l)"
    using assms(2) by (rule generateSVG_layout_locals(2))
  then have "anchored rnd e (placedRectangles l ! i)"
    using assms(3) by (simp add: e_def list_all2_conv_all_nth)
  then obtain d where r: "placedRectangles l ! i =
      candidate rnd (estimateBoundingBox (text e) FONT_SIZE) SVG_WIDTH SVG_HEIGHT d"
    by (auto simp: anchored_def)
  have "real (length (text e)) \<le> 48" using assms(4) by (simp add: e_def)
  then have "width (estimateBoundingBox (text e) FONT_SIZE) \<le> SVG_WIDTH"
    by (simp add: estimateBoundingBox_def PADDING_def FONT_SIZE_def SVG_WIDTH_def)
  moreover have "height (estimateBoundingBox (text e) FONT_SIZE) \<le> SVG_HEIGHT"
    by (simp add: estimateBoundingBox_def PADDING_def FONT_SIZE_def SVG_HEIGHT_def)
  ultimately show ?thesis
    unfolding r using assms(1) by (intro candidate_in_canvas)
qed

theorem short_tokens_within_canvas_witness:
  "unit_interval rnd_ramp \<and>
   0 < length (placedRectangles (fst (generateSVG_layout rnd_ramp 0 (loaded [abc, abc])))) \<and>
   length (text (textElements (fst (generateSVG_layout rnd_ramp 0 (loaded [abc, abc]))) ! 0)) \<le> 48 \<and>
   0 \<le> x (placedRectangles (fst (generateSVG_layout rnd_ramp 0 (loaded [abc, abc]))) ! 0) \<and>
   x (placedRectangles (fst (generateSVG_layout rnd_ramp 0 (loaded [abc, abc]))) ! 0) +
     width (placedRectangles (fst (generateSVG_layout rnd_ramp 0 (loaded [abc, abc]))) ! 0)
     \<le> SVG_WIDTH"
  using short_tokens_within_canvas [OF unit_interval_ramp prod.collapse [symmetric],
      of 0 0 "loaded [abc, abc]"]
    unit_interval_ramp
  by (simp add: two_words_layout abc_length)

lemma placeWords_None_fst:
  assumes "fst (findNonOverlappingPosition rnd (estimateBoundingBox w FONT_SIZE)
             (placedRectangles l) SVG_WIDTH SVG_HEIGHT s) = None"
  shows "placeWords rnd (w # rest) l s =
           placeWords rnd rest (l\<lparr>unplacedWords := unplacedWords l @ [w]\<rparr>)
             (snd (findNonOverlappingPosition rnd (estimateBoundingBox w FONT_SIZE)
                (placedRectangles l) SVG_WIDTH SVG_HEIGHT s))"
  by (rule placeWords_None) (simp add: assms [symmetric])

lemma find_None_iff:
  "(fst (findNonOverlappingPosition rnd bb pl cw ch s) = None) =
     (\<forall>k < MAX_ATTEMPTS.
        list_ex (rectanglesOverlap (candidate rnd bb cw ch (draws s + 2 * k))) pl)"
  by (simp add: findNonOverlappingPosition_def find_loop_None_iff)

text \<open>
  With a random source that always answers 0 every candidate is at the origin: the first
  word is placed there, and each later word runs out of attempts.
\<close>

lemma three_words_stuck:
  "fst (generateSVG_layout rnd_zero 0 (loaded [abc, ab, abc])) =
     \<lparr>placedRectangles = [\<lparr>width = 76.8, height = 40.8, x = 0, y = 0\<rparr>],
      textElements = [\<lparr>text = abc, textX = 38.4, textY = 28.4, rotation = - 15\<rparr>],
      unplacedWords = [ab, abc]\<rparr>"
  by (simp add: run_defs placeWords_None_fst find_None_iff rnd_zero_def abc_def ab_def)

text \<open>
  C7. A successful attempt returns one element for each input token, with the token as
  its text: the texts are the input tokens as a multiset. A word that finds no position
  does not end the loop: it is appended to \<open>unplacedWords\<close> and the loop goes on with the
  remaining words, so that every token of the input ends in exactly one of
  \<open>textElements\<close> and \<open>unplacedWords\<close>; the error thrown after the loop carries the latter.
\<close>

theorem attempt_places_every_token:
  "(generateSVG rnd words s = (Inr svg, s') \<longrightarrow>
      mset (map text svg) = mset (heap s words) \<and> length svg = length (heap s words)) \<and>
   (generateSVG rnd words s = (Inl (Failed_to_place u), s') \<longrightarrow>
      u \<noteq> [] \<and>
      u = unplacedWords (fst (generateSVG_layout rnd words (s\<lparr>calls := Suc (calls s)\<rparr>))) \<and>
      mset (map text (textElements
             (fst (generateSVG_layout rnd words (s\<lparr>calls := Suc (calls s)\<rparr>))))) + mset u =
        mset (heap s words)) \<and>
   (generateSVG_layout rnd words s = (l, s') \<longrightarrow>
      mset (map text (textElements l)) + mset (unplacedWords l) = mset (heap s words) \<and>
      length (placedRectangles l) = length (textElements l)) \<and>
   (fst (findNonOverlappingPosition rnd (estimateBoundingBox w FONT_SIZE)
           (placedRectangles l0) SVG_WIDTH SVG_HEIGHT s0) = None \<longrightarrow>
      placeWords rnd (w # rest) l0 s0 =
        placeWords rnd rest (l0\<lparr>unplacedWords := unplacedWords l0 @ [w]\<rparr>)
          (snd (findNonOverlappingPosition rnd (estimateBoundingBox w FONT_SIZE)
                  (placedRectangles l0) SVG_WIDTH SVG_HEIGHT s0)))"
proof (intro conjI impI)
  assume run: "generateSVG rnd words s = (Inr svg, s')"
  then obtain l where lay: "generateSVG_layout rnd words (s\<lparr>calls := Suc (calls s)\<rparr>) = (l, s')"
    and res: "Inr svg = (if unplacedWords l = [] then Inr (textElements l)
                else Inl (Failed_to_place (unplacedWords l)))"
    by (rule generateSVG_run)
  from res have "unplacedWords l = []" "svg = textElements l"
    by (auto split: if_splits)
  with generateSVG_layout_locals(3) [OF lay]
  show m: "mset (map text svg) = mset (heap s words)" by simp
  then have "size (mset (map text svg)) = size (mset (heap s words))" by simp
  then show "length svg = length (heap s words)" by simp
next
  assume run: "generateSVG rnd words s = (Inl (Failed_to_place u), s')"
  then obtain l where lay: "generateSVG_layout rnd words (s\<lparr>calls := Suc (calls s)\<rparr>) = (l, s')"
    and res: "Inl (Failed_to_place u) = (if unplacedWords l = [] then Inr (textElements l)
                else Inl (Failed_to_place (unplacedWords l)))"
    by (rule generateSVG_run)
  from res have u: "unplacedWords l \<noteq> []" "u = unplacedWords l"
    by (auto split: if_splits)
  from u show "u \<noteq> []" by simp
  from u lay
  show "u = unplacedWords (fst (generateSVG_layout rnd words (s\<lparr>calls := Suc (calls s)\<rparr>)))"
    by simp
  from generateSVG_layout_locals(3) [OF lay] u lay
  show "mset (map text (textElements
             (fst (generateSVG_layout rnd words (s\<lparr>calls := Suc (calls s)\<rparr>))))) + mset u =
        mset (heap s words)"
    by simp
next
  assume lay: "generateSVG_layout rnd words s = (l, s')"
  from generateSVG_layout_locals(3) [OF lay]
  show "mset (map text (textElements l)) + mset (unplacedWords l) = mset (heap s words)" .
  from generateSVG_layout_locals(2) [OF lay]
  show "length (placedRectangles l) = length (textElements l)"
    by (simp add: list_all2_lengthD)
next
  assume "fst (findNonOverlappingPosition rnd (estimateBoundingBox w FONT_SIZE)
           (placedRectangles l0) SVG_WIDTH SVG_HEIGHT s0) = None"
  then show "placeWords rnd (w # rest) l0 s0 =
        placeWords rnd rest (l0\<lparr>unplacedWords := unplacedWords l0 @ [w]\<rparr>)
          (snd (findNonOverlappingPosition rnd (estimateBoundingBox w FONT_SIZE)
                  (placedRectangles l0) SVG_WIDTH SVG_HEIGHT s0))"
    by (rule placeWords_None_fst)
qed

lemma two_words_svg:
  "fst (generateSVG rnd_ramp 0 (loaded [abc, abc])) =
     Inr [\<lparr>text = abc, textX = 136.32, textY = 183.44, rotation = - 6\<rparr>,
          \<lparr>text = abc, textX = 430.08, textY = 416, rotation = 3\<rparr>]"
  by (simp add: run_defs abc_def)

lemma three_words_error:
  "fst (generateSVG rnd_zero 0 (loaded [abc, ab, abc])) = Inl (Failed_to_place [ab, abc])"
  by (simp add: run_defs placeWords_None_fst find_None_iff rnd_zero_def abc_def ab_def)

lemma loaded_fields:
  "heap (loaded ws) 0 = ws" "next_ref (loaded ws) = 1"
  by (simp_all add: loaded_def readWords_def start_def)

theorem attempt_places_every_token_witness:
  "fst (generateSVG rnd_ramp 0 (loaded [abc, abc])) =
     Inr [\<lparr>text = abc, textX = 136.32, textY = 183.44, rotation = - 6\<rparr>,
          \<lparr>text = abc, textX = 430.08, textY = 416, rotation = 3\<rparr>] \<and>
   mset (map text [\<lparr>text = abc, textX = 136.32, textY = 183.44, rotation = - 6\<rparr>,
          \<lparr>text = abc, textX = 430.08, textY = 416, rotation = 3\<rparr>]) =
     mset (heap (loaded [abc, abc]) 0) \<and>
   fst (generateSVG rnd_zero 0 (loaded [abc, ab, abc])) = Inl (Failed_to_place [ab, abc]) \<and>
   [ab, abc] =
     unplacedWords (fst (generateSVG_layout rnd_zero 0
        ((loaded [abc, ab, abc])\<lparr>calls := Suc (calls (loaded [abc, ab, abc]))\<rparr>)))"
  using attempt_places_every_token [of rnd_ramp 0 "loaded [abc, abc]"
      "[\<lparr>text = abc, textX = 136.32, textY = 183.44, rotation = - 6\<rparr>,
          \<lparr>text = abc, textX = 430.08, textY = 416, rotation = 3\<rparr>]"
      "snd (generateSVG rnd_ramp 0 (loaded [abc, abc]))"]
    attempt_places_every_token [of rnd_zero 0 "loaded [abc, ab, abc]" _
      "snd (generateSVG rnd_zero 0 (loaded [abc, ab, abc]))" "[ab, abc]"]
    two_words_svg three_words_error
  by (simp add: prod_eq_iff loaded_fields)

subsection \<open>The input array\<close>

text \<open>
  C9. \<open>generateSVG\<close> does not change its input. Given a reference \<open>words\<close> to an
  allocated array, after the call, whether it returns or throws, that array and every
  other array allocated before the call hold what they held. The shuffle works on a copy
  at a fresh reference, different from \<open>words\<close>, and the shuffled copy is a permutation
  of the input: it has the same elements with the same multiplicities.
\<close>

theorem generateSVG_keeps_input:
  assumes "generateSVG rnd words s = (res, s')" and "words < next_ref s"
  shows "heap s' words = heap s words \<and>
         (\<forall>a < next_ref s. heap s' a = heap s a) \<and>
         fst (shuffle rnd words (s\<lparr>calls := Suc (calls s)\<rparr>)) = next_ref s \<and>
         fst (shuffle rnd words (s\<lparr>calls := Suc (calls s)\<rparr>)) \<noteq> words \<and>
         mset (heap (snd (shuffle rnd words (s\<lparr>calls := Suc (calls s)\<rparr>))) (next_ref s)) =
           mset (heap s words) \<and>
         mset (heap s' (next_ref s)) = mset (heap s words)"
proof -
  note fr = generateSVG_frame [OF assms(1)]
  have sh: "shuffle rnd words (s\<lparr>calls := Suc (calls s)\<rparr>) =
      (fst (shuffle rnd words (s\<lparr>calls := Suc (calls s)\<rparr>)),
       snd (shuffle rnd words (s\<lparr>calls := Suc (calls s)\<rparr>)))"
    by simp
  from shuffle_spec [OF sh] fr assms(2) show ?thesis by auto
qed

text \<open>A shuffle that does reorder: the copy is reversed, the input stays.\<close>

lemma shuffle_moves:
  "heap (snd (shuffle rnd_nine 0 (loaded [abc, ab]))) 0 = [abc, ab] \<and>
   heap (snd (shuffle rnd_nine 0 (loaded [abc, ab]))) 1 = [ab, abc]"
  by (simp add: run_defs rnd_nine_def)

theorem generateSVG_keeps_input_witness:
  "0 < next_ref (loaded [abc, ab]) \<and>
   heap (snd (generateSVG rnd_nine 0 (loaded [abc, ab]))) 0 = [abc, ab] \<and>
   mset (heap (snd (generateSVG rnd_nine 0 (loaded [abc, ab]))) 1) = mset [abc, ab]"
  using generateSVG_keeps_input [OF prod.collapse [symmetric], of 0 "loaded [abc, ab]" rnd_nine]
  by (simp add: loaded_fields)

text \<open>
  C10. For an empty token list the attempt succeeds at once, whatever the random source:
  no rectangle, no text element, no unplaced word, no error, and not a single random
  draw or candidate; the retry loop returns after this first attempt.
\<close>

theorem empty_list_succeeds:
  assumes "heap s words = []"
  shows "fst (generateSVG rnd words s) = Inr [] \<and>
         fst (generateSVG_layout rnd words s) =
           \<lparr>placedRectangles = [], textElements = [], unplacedWords = []\<rparr> \<and>
         draws (snd (generateSVG rnd words s)) = draws s \<and>
         samples (snd (generateSVG rnd words s)) = samples s \<and>
         fst (main_loop rnd words 0 s) = Saved (Some [])"
proof -
  have lay: "generateSVG_layout rnd words t =
      (\<lparr>placedRectangles = [], textElements = [], unplacedWords = []\<rparr>,
       t\<lparr>heap := (heap t)(next_ref t := []), next_ref := Suc (next_ref t)\<rparr>)"
    if "heap t words = []" for t
    using that by (simp add: generateSVG_layout_def shuffle_def spread_def Array_sort_def)
  have gen: "generateSVG rnd words s =
      (Inr [], s\<lparr>calls := Suc (calls s), heap := (heap s)(next_ref s := []),
                 next_ref := Suc (next_ref s)\<rparr>)"
    using assms by (simp add: generateSVG_def lay)
  have "fst (main_loop rnd words 0 s) = Saved (Some [])"
    by (subst main_loop.simps) (simp add: gen maxRetries_def)
  with lay [OF assms] gen show ?thesis by simp
qed

theorem empty_list_succeeds_witness:
  "heap (loaded []) 0 = [] \<and> fst (generateSVG rnd_zero 0 (loaded [])) = Inr [] \<and>
   fst (main_loop rnd_zero 0 0 (loaded [])) = Saved (Some [])"
  using empty_list_succeeds [of "loaded []" 0 rnd_zero]
  by (simp add: loaded_fields)

subsection \<open>The retry loop\<close>

text \<open>
  Every attempt finds the input array as the first one did; the counters grow by one call
  and by at most \<open>MAX_ATTEMPTS\<close> candidates a word with each attempt.
\<close>

lemma attempt_state_inv:
  assumes "words < next_ref s"
  shows "heap (attempt_state rnd words s k) words = heap s words \<and>
    words < next_ref (attempt_state rnd words s k) \<and>
    calls (attempt_state rnd words s k) = calls s + k \<and>
    samples (attempt_state rnd words s k) \<le> samples s + k * (length (heap s words) * MAX_ATTEMPTS) \<and>
    draws s \<le> draws (attempt_state rnd words s k)"
  using assms
proof (induction k arbitrary: s)
  case 0
  then show ?case by simp
next
  case (Suc k)
  define t where "t = snd (generateSVG rnd words s)"
  have run: "generateSVG rnd words s = (fst (generateSVG rnd words s), t)"
    by (simp add: t_def)
  note fr = generateSVG_frame [OF run]
  from fr Suc.prems have t: "heap t words = heap s words" "words < next_ref t" by auto
  from Suc.IH [OF t(2)] t fr show ?case
    by (simp add: t_def [symmetric] algebra_simps)
qed

lemma attempt_state_Suc:
  "attempt_state rnd words s (Suc k) = snd (attempt rnd words s k)"
  by (induction k arbitrary: s) (simp_all add: attempt_def)

text \<open>
  The loop entered with counter \<open>a\<close> ends at the first attempt that returns, or at the
  attempt that brings the counter to \<open>maxRetries\<close>.
\<close>

lemma main_loop_attempts:
  assumes "a < maxRetries" and "main_loop rnd words a s = (out, s')"
  shows "\<exists>k. a + k < maxRetries \<and>
    (\<forall>j < k. isl (fst (attempt rnd words s j))) \<and>
    s' = snd (attempt rnd words s k) \<and>
    (\<forall>svg. fst (attempt rnd words s k) = Inr svg \<longrightarrow> out = Saved (Some svg)) \<and>
    (\<forall>e. fst (attempt rnd words s k) = Inl e \<longrightarrow> Suc (a + k) = maxRetries \<and> out = Exit_1 e)"
  using assms
proof (induction "maxRetries - a" arbitrary: a s)
  case 0
  then show ?case by simp
next
  case (Suc n)
  obtain r s1 where g: "generateSVG rnd words s = (r, s1)"
    by (cases "generateSVG rnd words s")
  have a0: "attempt rnd words s 0 = (r, s1)" by (simp add: attempt_def g)
  show ?case
  proof (cases r)
    case (Inr svg)
    with Suc.prems g have "out = Saved (Some svg)" "s' = s1"
      by (subst (asm) main_loop.simps, simp)+
    with Suc.prems(1) a0 Inr show ?thesis
      by (intro exI [of _ 0]) simp
  next
    case (Inl e)
    show ?thesis
    proof (cases "Suc a \<ge> maxRetries")
      case True
      with Suc.prems g Inl have "out = Exit_1 e" "s' = s1"
        by (subst (asm) main_loop.simps, simp)+
      with Suc.prems(1) a0 Inl True show ?thesis
        by (intro exI [of _ 0]) simp
    next
      case False
      with Suc.prems g Inl have rec: "main_loop rnd words (Suc a) s1 = (out, s')"
        by (subst (asm) main_loop.simps) simp
      have "n = maxRetries - Suc a" using Suc.hyps(2) by arith
      moreover have "Suc a < maxRetries" using False by simp
      ultimately obtain k where k: "Suc a + k < maxRetries"
        "\<forall>j < k. isl (fst (attempt rnd words s1 j))"
        "s' = snd (attempt rnd words s1 k)"
        "\<forall>svg. fst (attempt rnd words s1 k) = Inr svg \<longrightarrow> out = Saved (Some svg)"
        "\<forall>e. fst (attempt rnd words s1 k) = Inl e \<longrightarrow> Suc (Suc a + k) = maxRetries \<and> out = Exit_1 e"
        using Suc.hyps(1) rec by blast
      have shift: "attempt rnd words s (Suc j) = attempt rnd words s1 j" for j
        by (simp add: attempt_def g)
      have "\<forall>j < Suc k. isl (fst (attempt rnd words s j))"
      proof (intro allI impI)
        fix j assume "j < Suc k"
        then show "isl (fst (attempt rnd words s j))"
          using k(2) a0 Inl shift by (cases j) auto
      qed
      with k shift show ?thesis
        by (intro exI [of _ "Suc k"]) simp
    qed
  qed
qed

text \<open>The error of an attempt lists words of the input, at least one.\<close>

lemma generateSVG_error:
  assumes "generateSVG rnd words s = (Inl e, s')"
  shows "\<exists>u. e = Failed_to_place u \<and> u \<noteq> [] \<and> mset u \<subseteq># mset (heap s words)"
proof -
  from assms obtain l where lay: "generateSVG_layout rnd words (s\<lparr>calls := Suc (calls s)\<rparr>) = (l, s')"
    and res: "Inl e = (if unplacedWords l = [] then Inr (textElements l)
                else Inl (Failed_to_place (unplacedWords l)))"
    by (rule generateSVG_run)
  from res have u: "unplacedWords l \<noteq> []" "e = Failed_to_place (unplacedWords l)"
    by (auto split: if_splits)
  have "mset (unplacedWords l) \<subseteq># mset (map text (textElements l)) + mset (unplacedWords l)"
    by simp
  with generateSVG_layout_locals(3) [OF lay] have "mset (unplacedWords l) \<subseteq># mset (heap s words)"
    by simp
  with u show ?thesis by blast
qed

text \<open>
  C8. \<open>main\<close> is a total function: the retry loop is bounded by its counter. It runs
  attempts number 0 to \<open>k\<close> for some \<open>k < maxRetries\<close>, so at most \<open>maxRetries = 10\<close>
  invocations of \<open>generateSVG\<close>, each on the unchanged input and each reading random draws
  that no earlier attempt read (an attempt starts where the one before stopped, and draws
  at least once if there is a word). The attempts before \<open>k\<close> all threw. If attempt \<open>k\<close>
  returns, that result is what is saved; if it throws, it was the last of \<open>maxRetries\<close>
  attempts and the program exits with its error, which lists the words that attempt left
  unplaced. The candidates formed in all number at most \<open>maxRetries\<close> times the number of
  words times \<open>MAX_ATTEMPTS\<close>.
\<close>

theorem main_retries:
  assumes "main rnd lines s = (out, s')"
  shows "(\<exists>k < maxRetries.
      (\<forall>j < k. isl (fst (main_attempt rnd lines s j))) \<and>
      s' = snd (main_attempt rnd lines s k) \<and>
      (\<forall>svg. fst (main_attempt rnd lines s k) = Inr svg \<longrightarrow> out = Saved (Some svg)) \<and>
      (\<forall>e. fst (main_attempt rnd lines s k) = Inl e \<longrightarrow>
           Suc k = maxRetries \<and> out = Exit_1 e \<and>
           (\<exists>u. e = Failed_to_place u \<and> u \<noteq> [] \<and> mset u \<subseteq># mset lines)) \<and>
      (\<forall>j \<le> k. heap (main_attempt_state rnd lines s j) (next_ref s) = lines) \<and>
      (lines \<noteq> [] \<longrightarrow>
         (\<forall>j \<le> k. draws (main_attempt_state rnd lines s j) <
                   draws (snd (main_attempt rnd lines s j)))) \<and>
      calls s' = calls s + Suc k \<and>
      samples s' \<le> samples s + Suc k * (length lines * MAX_ATTEMPTS)) \<and>
    calls s' - calls s \<le> maxRetries \<and>
    samples s' - samples s \<le> maxRetries * length lines * MAX_ATTEMPTS"
proof -
  define w where "w = next_ref s"
  define s1 where "s1 = snd (readWords lines s)"
  have rw: "readWords lines s = (w, s1)" by (simp add: w_def s1_def readWords_def)
  have s1: "heap s1 w = lines" "w < next_ref s1" "calls s1 = calls s" "samples s1 = samples s"
    by (simp_all add: w_def s1_def readWords_def)
  have ma: "main_attempt rnd lines s j = attempt rnd w s1 j"
    and ms: "main_attempt_state rnd lines s j = attempt_state rnd w s1 j" for j
    by (simp_all add: main_attempt_def main_attempt_state_def rw)
  have "0 < maxRetries" by (simp add: maxRetries_def)
  moreover from assms have "main_loop rnd w 0 s1 = (out, s')"
    by (simp add: main_def rw)
  ultimately obtain k where k: "k < maxRetries"
    "\<forall>j < k. isl (fst (attempt rnd w s1 j))"
    "s' = snd (attempt rnd w s1 k)"
    "\<forall>svg. fst (attempt rnd w s1 k) = Inr svg \<longrightarrow> out = Saved (Some svg)"
    "\<forall>e. fst (attempt rnd w s1 k) = Inl e \<longrightarrow> Suc k = maxRetries \<and> out = Exit_1 e"
    using main_loop_attempts [of 0 rnd w s1 out s'] by auto
  note inv = attempt_state_inv [OF s1(2), of rnd]
  have heap_j: "heap (attempt_state rnd w s1 j) w = lines" for j
    using inv [of j] s1(1) by simp
  have err: "\<exists>u. e = Failed_to_place u \<and> u \<noteq> [] \<and> mset u \<subseteq># mset lines"
    if "fst (attempt rnd w s1 k) = Inl e" for e
  proof -
    have "generateSVG rnd w (attempt_state rnd w s1 k) = (Inl e, snd (attempt rnd w s1 k))"
      using that by (simp add: attempt_def prod_eq_iff)
    from generateSVG_error [OF this] heap_j show ?thesis by simp
  qed
  have fresh: "draws (attempt_state rnd w s1 j) < draws (snd (attempt rnd w s1 j))"
    if "lines \<noteq> []" for j
  proof -
    have "generateSVG rnd w (attempt_state rnd w s1 j) =
        (fst (attempt rnd w s1 j), snd (attempt rnd w s1 j))"
      by (simp add: attempt_def)
    from generateSVG_frame [OF this] heap_j that show ?thesis by simp
  qed
  have end_state: "s' = attempt_state rnd w s1 (Suc k)"
    using k(3) by (simp only: attempt_state_Suc)
  from inv [of "Suc k"] s1 end_state
  have counts: "calls s' = calls s + Suc k"
    "samples s' \<le> samples s + Suc k * (length lines * MAX_ATTEMPTS)"
    by simp_all
  have "Suc k * (length lines * MAX_ATTEMPTS) \<le> maxRetries * (length lines * MAX_ATTEMPTS)"
    using k(1) by (intro mult_le_mono1) simp
  with counts k(1) have bounds: "calls s' - calls s \<le> maxRetries"
    "samples s' - samples s \<le> maxRetries * length lines * MAX_ATTEMPTS"
    by (simp_all add: mult.assoc)
  have "k < maxRetries \<and>
      (\<forall>j < k. isl (fst (main_attempt rnd lines s j))) \<and>
      s' = snd (main_attempt rnd lines s k) \<and>
      (\<forall>svg. fst (main_attempt rnd lines s k) = Inr svg \<longrightarrow> out = Saved (Some svg)) \<and>
      (\<forall>e. fst (main_attempt rnd lines s k) = Inl e \<longrightarrow>
           Suc k = maxRetries \<and> out = Exit_1 e \<and>
           (\<exists>u. e = Failed_to_place u \<and> u \<noteq> [] \<and> mset u \<subseteq># mset lines)) \<and>
      (\<forall>j \<le> k. heap (main_attempt_state rnd lines s j) (next_ref s) = lines) \<and>
      (lines \<noteq> [] \<longrightarrow>
         (\<forall>j \<le> k. draws (main_attempt_state rnd lines s j) <
                   draws (snd (main_attempt rnd lines s j)))) \<and>
      calls s' = calls s + Suc k \<and>
      samples s' \<le> samples s + Suc k * (length lines * MAX_ATTEMPTS)"
    unfolding ma ms using k err heap_j fresh counts by (simp add: w_def)
  with bounds show ?thesis by blast
qed

text \<open>
  Two runs of the program: one whose first attempt succeeds, and one where every attempt
  leaves the same two words unplaced, whatever state it starts in.
\<close>

lemma two_words_main:
  "fst (main rnd_ramp [abc, abc] start) =
     Saved (Some [\<lparr>text = abc, textX = 136.32, textY = 183.44, rotation = - 6\<rparr>,
                  \<lparr>text = abc, textX = 430.08, textY = 416, rotation = 3\<rparr>])"
proof -
  obtain s1 where g: "generateSVG rnd_ramp 0 (loaded [abc, abc]) =
      (Inr [\<lparr>text = abc, textX = 136.32, textY = 183.44, rotation = - 6\<rparr>,
            \<lparr>text = abc, textX = 430.08, textY = 416, rotation = 3\<rparr>], s1)"
    using two_words_svg by (cases "generateSVG rnd_ramp 0 (loaded [abc, abc])") simp
  have m: "main rnd_ramp [abc, abc] start = main_loop rnd_ramp 0 0 (loaded [abc, abc])"
    by (simp add: main_def loaded_def readWords_def start_def)
  show ?thesis
    unfolding m by (subst main_loop.simps) (simp add: maxRetries_def g)
qed

lemma three_words_always_stuck:
  "heap t 0 = [abc, ab, abc] \<Longrightarrow>
   fst (generateSVG rnd_zero 0 t) = Inl (Failed_to_place [ab, abc])"
  by (simp add: run_defs placeWords_None_fst find_None_iff rnd_zero_def abc_def ab_def)

theorem main_retries_witness:
  "fst (main rnd_ramp [abc, abc] start) =
     Saved (Some [\<lparr>text = abc, textX = 136.32, textY = 183.44, rotation = - 6\<rparr>,
                  \<lparr>text = abc, textX = 430.08, textY = 416, rotation = 3\<rparr>]) \<and>
   calls (snd (main rnd_ramp [abc, abc] start)) - calls start \<le> maxRetries \<and>
   fst (main rnd_zero [abc, ab, abc] start) = Exit_1 (Failed_to_place [ab, abc]) \<and>
   calls (snd (main rnd_zero [abc, ab, abc] start)) = calls start + maxRetries"
proof -
  define out where "out = fst (main rnd_zero [abc, ab, abc] start)"
  define s' where "s' = snd (main rnd_zero [abc, ab, abc] start)"
  have run: "main rnd_zero [abc, ab, abc] start = (out, s')"
    by (simp add: out_def s'_def)
  from main_retries [OF run] obtain k where k: "k < maxRetries"
    "\<forall>e. fst (main_attempt rnd_zero [abc, ab, abc] start k) = Inl e \<longrightarrow>
           Suc k = maxRetries \<and> out = Exit_1 e"
    "\<forall>j \<le> k. heap (main_attempt_state rnd_zero [abc, ab, abc] start j) (next_ref start)
       = [abc, ab, abc]"
    "calls s' = calls start + Suc k"
    by blast
  from k(3) have "heap (main_attempt_state rnd_zero [abc, ab, abc] start k) 0 = [abc, ab, abc]"
    by (simp add: start_def)
  then have "fst (main_attempt rnd_zero [abc, ab, abc] start k) = Inl (Failed_to_place [ab, abc])"
    unfolding main_attempt_def attempt_def main_attempt_state_def
    by (simp add: three_words_always_stuck readWords_def start_def)
  with k(2,4) have "out = Exit_1 (Failed_to_place [ab, abc])" "calls s' = calls start + maxRetries"
    by auto
  with main_retries [OF prod.collapse [symmetric], of rnd_ramp "[abc, abc]" start] two_words_main
  show ?thesis by (simp add: out_def s'_def)
qed

end
